theory Spec2Isabelle
  imports Main
begin

section \<open>The registration ledger of gather-app (routes/api.js)\<close>

text \<open>
  The routes of the API read and write one sql.js database through SQL statements. The
  model keeps each table as the list of its rows in insertion (rowid) order and threads
  the database through every handler: a handler takes the database and returns its
  HTTP response together with the database it leaves behind. Every
  \<^verbatim>\<open>return res.status(...).json(...)\<close> of the source is a branch returning an
  \<open>error\<close>; the values the source draws from outside (\<^verbatim>\<open>uuidv4()\<close>,
  \<^verbatim>\<open>crypto.randomBytes\<close>, the clock, the QR encoder) are the fields of \<open>env\<close>.
\<close>

subsection \<open>Rows\<close>

text \<open>
  Timestamps (\<^verbatim>\<open>datetime('now')\<close>, \<^verbatim>\<open>new Date().toISOString()\<close>) are text
  whose order is the order of time; the model keeps the instant as a number.
\<close>

type_synonym timestamp = nat

text \<open>
  \<^verbatim>\<open>JSON.stringify({attendeeId, eventId, name, email})\<close> rendered by
  \<^verbatim>\<open>QRCode.toDataURL\<close>, and read back by the scanner and \<^verbatim>\<open>JSON.parse\<close>:
  the model keeps the object itself, as its list of fields.
\<close>

type_synonym json_obj = "(string \<times> string) list"

record event =
  e_id :: string
  e_title :: string
  e_slug :: string
  e_capacity :: int
  e_status :: string
  e_user_id :: "string option"

text \<open>
  The 0/1 columns \<^verbatim>\<open>checked_in\<close> and \<^verbatim>\<open>cancelled\<close> are booleans (every write
  of the source stores the literal 0 or 1); \<^verbatim>\<open>checked_in_at\<close> is \<open>None\<close> for NULL.
\<close>

record attendee =
  a_id :: string
  a_event_id :: string
  a_name :: string
  a_email :: string
  a_qr_code :: json_obj
  a_checked_in :: bool
  a_checked_in_at :: "timestamp option"
  a_cancelled :: bool
  a_cancel_token :: string
  a_created_at :: timestamp

record waitlist_entry =
  w_id :: string
  w_event_id :: string
  w_name :: string
  w_email :: string
  w_notified :: bool
  w_created_at :: timestamp

record db =
  events :: "event list"
  attendees :: "attendee list"
  waitlist :: "waitlist_entry list"

text \<open>
  \<open>qr_fits\<close> says whether \<^verbatim>\<open>QRCode.toDataURL\<close> renders a payload: the library
  throws for data beyond the capacity of a QR code, and the handler's \<^verbatim>\<open>catch\<close>
  then answers 500.
\<close>

record env =
  new_id :: string
  new_token :: string
  now :: timestamp
  qr_fits :: "json_obj \<Rightarrow> bool"

text \<open>\<^verbatim>\<open>req.session.user\<close>, when a user is logged in.\<close>

record session_user =
  u_id :: string
  u_name :: string
  u_email :: string

subsection \<open>Responses\<close>

datatype error =
    MissingFields
  | NotFound
  | EventUnavailable
  | DuplicateRegistration
  | CapacityExceeded
  | InvalidToken
  | AlreadyWaitlisted
  | Unauthorized
  | Forbidden
  | InvalidPayload
  | RsvpCancelled
  | InternalError

text \<open>
  \<open>MissingFields\<close> is the 400 for an empty name or email, \<open>NotFound\<close> a 404,
  \<open>EventUnavailable\<close> the 400 for a cancelled or draft event, \<open>DuplicateRegistration\<close>
  and \<open>AlreadyWaitlisted\<close> the 409s, \<open>CapacityExceeded\<close> the 400 \<^verbatim>\<open>FULL\<close>,
  \<open>InvalidToken\<close> and \<open>Forbidden\<close> the 403s, \<open>Unauthorized\<close> the 401 of
  \<^verbatim>\<open>requireAuth\<close>, \<open>InvalidPayload\<close> and \<open>RsvpCancelled\<close> the 400s of the QR
  check-in, \<open>InternalError\<close> the 500 of a handler's \<^verbatim>\<open>catch\<close>.
\<close>

record register_response =
  r_id :: string
  r_name :: string
  r_email :: string
  r_qr_code :: json_obj
  r_event :: event
  r_cancel_token :: "string option"
  r_reactivated :: bool

record checkin_response =
  c_message :: string
  c_attendee :: attendee

record qr_response =
  q_already_checked_in :: bool
  q_id :: string
  q_name :: string
  q_email :: string
  q_event_title :: string
  q_checked_in :: bool

record waitlist_response =
  j_id :: string
  j_position :: int

record dashboard_response =
  d_event :: event
  d_attendees :: "attendee list"
  d_total :: int
  d_checked_in :: int
  d_waitlist_count :: int
  d_checkin_times :: "timestamp list"

subsection \<open>SQL statements\<close>

text \<open>\<^verbatim>\<open>UPDATE t SET ... WHERE p\<close>: every row that satisfies \<open>p\<close> is rewritten.\<close>

definition update_where :: "('a \<Rightarrow> bool) \<Rightarrow> ('a \<Rightarrow> 'a) \<Rightarrow> 'a list \<Rightarrow> 'a list" where
  "update_where p f rows = map (\<lambda>r. if p r then f r else r) rows"

text \<open>\<^verbatim>\<open>SELECT COUNT(*) FROM t WHERE p\<close>.\<close>

definition count_where :: "('a \<Rightarrow> bool) \<Rightarrow> 'a list \<Rightarrow> int" where
  "count_where p rows = int (length (filter p rows))"

text \<open>
  \<^verbatim>\<open>SELECT COUNT(*) as count FROM attendees WHERE event_id = ? AND cancelled = 0\<close>
\<close>

definition active_count :: "db \<Rightarrow> string \<Rightarrow> int" where
  "active_count d eid =
     count_where (\<lambda>a. a_event_id a = eid \<and> \<not> a_cancelled a) (attendees d)"

text \<open>
  \<^verbatim>\<open>SELECT * FROM waitlist WHERE event_id = ? AND notified = 0 ORDER BY created_at ASC LIMIT 1\<close>:
  the first row of the sorted selection (rows of equal \<^verbatim>\<open>created_at\<close> stay in
  insertion order).
\<close>

definition next_in_line :: "string \<Rightarrow> waitlist_entry list \<Rightarrow> waitlist_entry option" where
  "next_in_line eid rows =
     (case sort_key w_created_at (filter (\<lambda>w. w_event_id w = eid \<and> \<not> w_notified w) rows) of
        [] \<Rightarrow> None
      | w # _ \<Rightarrow> Some w)"

text \<open>
  \<^verbatim>\<open>SELECT a.*, e.title as event_title FROM attendees a JOIN events e ON a.event_id = e.id WHERE a.id = ?\<close>
\<close>

definition attendee_with_event :: "db \<Rightarrow> string \<Rightarrow> (attendee \<times> event) list" where
  "attendee_with_event d aid =
     concat (map (\<lambda>a. map (\<lambda>e. (a, e)) (filter (\<lambda>e. a_event_id a = e_id e) (events d)))
                 (filter (\<lambda>a. a_id a = aid) (attendees d)))"

definition qr_data :: "string \<Rightarrow> string \<Rightarrow> string \<Rightarrow> string \<Rightarrow> json_obj" where
  "qr_data aid eid name email =
     [(''attendeeId'', aid), (''eventId'', eid), (''name'', name), (''email'', email)]"

subsection \<open>POST /events/:slug/register\<close>

text \<open>
  A name or an email that is missing or empty is falsy. On both paths the QR code is
  rendered before the write, so a payload the encoder refuses ends the request with 500
  and nothing written. The reactivating
  \<^verbatim>\<open>UPDATE attendees SET cancelled = 0, name = ?, qr_code = ?, checked_in = 0 WHERE id = ?\<close>
  writes these four columns and no other. The \<^verbatim>\<open>INSERT\<close> names six columns; the
  others take the defaults of the table (\<^verbatim>\<open>checked_in\<close> 0, \<^verbatim>\<open>created_at\<close> the
  current time), and \<^verbatim>\<open>id\<close> is the primary key, so an insert of an id in use
  throws and the handler answers 500.

  Modelled from the spec: the declaration of the columns \<^verbatim>\<open>cancelled\<close> and
  \<^verbatim>\<open>checked_in_at\<close> is in no source file; the spec gives \<^verbatim>\<open>cancelled\<close> the
  default false and leaves \<^verbatim>\<open>checked_in_at\<close> unset until a check-in.
\<close>

definition reactivate :: "string \<Rightarrow> json_obj \<Rightarrow> attendee \<Rightarrow> attendee" where
  "reactivate name qr a =
     a\<lparr>a_cancelled := False, a_name := name, a_qr_code := qr, a_checked_in := False\<rparr>"

definition new_attendee :: "env \<Rightarrow> string \<Rightarrow> string \<Rightarrow> string \<Rightarrow> json_obj \<Rightarrow> attendee" where
  "new_attendee en eid name email qr =
     \<lparr>a_id = new_id en, a_event_id = eid, a_name = name, a_email = email, a_qr_code = qr,
      a_checked_in = False, a_checked_in_at = None, a_cancelled = False,
      a_cancel_token = new_token en, a_created_at = now en\<rparr>"

definition register ::
  "env \<Rightarrow> db \<Rightarrow> string \<Rightarrow> string \<Rightarrow> string \<Rightarrow> (error + register_response) \<times> db" where
  "register en d slug name email =
     (if name = [] \<or> email = [] then (Inl MissingFields, d)
      else case find (\<lambda>e. e_slug e = slug) (events d) of
        None \<Rightarrow> (Inl NotFound, d)
      | Some ev \<Rightarrow>
          if e_status ev = ''cancelled'' then (Inl EventUnavailable, d)
          else if e_status ev = ''draft'' then (Inl EventUnavailable, d)
          else (case find (\<lambda>a. a_event_id a = e_id ev \<and> a_email a = email) (attendees d) of
            Some existing \<Rightarrow>
              if \<not> a_cancelled existing then (Inl DuplicateRegistration, d)
              else
                let qr = qr_data (a_id existing) (e_id ev) name email
                in if \<not> qr_fits en qr then (Inl InternalError, d)
                   else (Inr \<lparr>r_id = a_id existing, r_name = name, r_email = email,
                              r_qr_code = qr, r_event = ev, r_cancel_token = None,
                              r_reactivated = True\<rparr>,
                         d\<lparr>attendees :=
                             update_where (\<lambda>a. a_id a = a_id existing) (reactivate name qr)
                               (attendees d)\<rparr>)
          | None \<Rightarrow>
              if active_count d (e_id ev) \<ge> e_capacity ev then (Inl CapacityExceeded, d)
              else
                let qr = qr_data (new_id en) (e_id ev) name email
                in if \<not> qr_fits en qr then (Inl InternalError, d)
                   else if new_id en \<in> set (map a_id (attendees d)) then (Inl InternalError, d)
                   else (Inr \<lparr>r_id = new_id en, r_name = name, r_email = email, r_qr_code = qr,
                              r_event = ev, r_cancel_token = Some (new_token en),
                              r_reactivated = False\<rparr>,
                         d\<lparr>attendees :=
                             attendees d @ [new_attendee en (e_id ev) name email qr]\<rparr>)))"

subsection \<open>POST /attendees/:id/cancel\<close>

text \<open>
  \<^verbatim>\<open>UPDATE attendees SET cancelled = 1 WHERE id = ?\<close>, then the promotion: the next
  in line of the attendee's event, when there is one, gets
  \<^verbatim>\<open>UPDATE waitlist SET notified = 1 WHERE id = ?\<close>.
\<close>

definition promote :: "string \<Rightarrow> waitlist_entry list \<Rightarrow> waitlist_entry list" where
  "promote eid rows =
     (case next_in_line eid rows of
        None \<Rightarrow> rows
      | Some nxt \<Rightarrow> update_where (\<lambda>w. w_id w = w_id nxt) (\<lambda>w. w\<lparr>w_notified := True\<rparr>) rows)"

definition cancel :: "db \<Rightarrow> string \<Rightarrow> string \<Rightarrow> (error + unit) \<times> db" where
  "cancel d aid cancel_token =
     (case find (\<lambda>a. a_id a = aid) (attendees d) of
        None \<Rightarrow> (Inl NotFound, d)
      | Some att \<Rightarrow>
          if a_cancel_token att \<noteq> cancel_token then (Inl InvalidToken, d)
          else (Inr (),
                d\<lparr>attendees :=
                    update_where (\<lambda>a. a_id a = aid) (\<lambda>a. a\<lparr>a_cancelled := True\<rparr>) (attendees d),
                  waitlist := promote (a_event_id att) (waitlist d)\<rparr>))"

subsection \<open>POST /events/:slug/waitlist\<close>

text \<open>
  Modelled from the spec: the declaration of the table \<^verbatim>\<open>waitlist\<close> is in no source
  file; the spec gives an entry a unique id, \<^verbatim>\<open>notified\<close> false and the
  \<^verbatim>\<open>created_at\<close> of its insertion.
\<close>

definition joinWaitlist ::
  "env \<Rightarrow> db \<Rightarrow> string \<Rightarrow> string \<Rightarrow> string \<Rightarrow> (error + waitlist_response) \<times> db" where
  "joinWaitlist en d slug name email =
     (if name = [] \<or> email = [] then (Inl MissingFields, d)
      else case find (\<lambda>e. e_slug e = slug) (events d) of
        None \<Rightarrow> (Inl NotFound, d)
      | Some ev \<Rightarrow>
          (case find (\<lambda>w. w_event_id w = e_id ev \<and> w_email w = email) (waitlist d) of
             Some _ \<Rightarrow> (Inl AlreadyWaitlisted, d)
           | None \<Rightarrow>
               if new_id en \<in> set (map w_id (waitlist d)) then (Inl InternalError, d)
               else
                 let rows = waitlist d @
                       [\<lparr>w_id = new_id en, w_event_id = e_id ev, w_name = name, w_email = email,
                         w_notified = False, w_created_at = now en\<rparr>]
                 in (Inr \<lparr>j_id = new_id en,
                          j_position =
                            count_where (\<lambda>w. w_event_id w = e_id ev \<and> w_created_at w \<le> now en)
                              rows\<rparr>,
                     d\<lparr>waitlist := rows\<rparr>)))"

subsection \<open>POST /attendees/:id/checkin and POST /checkin/qr\<close>

definition check_in_row :: "timestamp \<Rightarrow> attendee \<Rightarrow> attendee" where
  "check_in_row t a = a\<lparr>a_checked_in := True, a_checked_in_at := Some t\<rparr>"

definition checkIn :: "env \<Rightarrow> db \<Rightarrow> string \<Rightarrow> (error + checkin_response) \<times> db" where
  "checkIn en d aid =
     (case find (\<lambda>a. a_id a = aid) (attendees d) of
        None \<Rightarrow> (Inl NotFound, d)
      | Some att \<Rightarrow>
          if a_checked_in att
          then (Inr \<lparr>c_message = ''Already checked in'', c_attendee = att\<rparr>, d)
          else (Inr \<lparr>c_message = ''Checked in successfully'',
                     c_attendee = check_in_row (now en) att\<rparr>,
                d\<lparr>attendees :=
                    update_where (\<lambda>a. a_id a = aid) (check_in_row (now en)) (attendees d)\<rparr>))"

text \<open>
  The body's \<^verbatim>\<open>qrData\<close> is \<open>None\<close> when \<^verbatim>\<open>JSON.parse\<close> throws and the parsed
  object otherwise; an \<^verbatim>\<open>attendeeId\<close> that is missing or empty is falsy. The
  \<^verbatim>\<open>JOIN\<close> finds the attendee only together with its event.
\<close>

definition checkInByQrPayload ::
  "env \<Rightarrow> db \<Rightarrow> json_obj option \<Rightarrow> (error + qr_response) \<times> db" where
  "checkInByQrPayload en d qrData =
     (case qrData of
        None \<Rightarrow> (Inl InvalidPayload, d)
      | Some parsed \<Rightarrow>
          (case map_of parsed ''attendeeId'' of
             None \<Rightarrow> (Inl InvalidPayload, d)
           | Some attendeeId \<Rightarrow>
               if attendeeId = [] then (Inl InvalidPayload, d)
               else (case attendee_with_event d attendeeId of
                 [] \<Rightarrow> (Inl NotFound, d)
               | (att, ev) # _ \<Rightarrow>
                   if a_cancelled att then (Inl RsvpCancelled, d)
                   else
                     (Inr \<lparr>q_already_checked_in = a_checked_in att, q_id = a_id att,
                           q_name = a_name att, q_email = a_email att,
                           q_event_title = e_title ev, q_checked_in = True\<rparr>,
                      if \<not> a_checked_in att
                      then d\<lparr>attendees :=
                               update_where (\<lambda>a. a_id a = attendeeId) (check_in_row (now en))
                                 (attendees d)\<rparr>
                      else d))))"

subsection \<open>GET /events/:slug/attendees\<close>

text \<open>
  \<^verbatim>\<open>requireAuth\<close> runs first: a request with no session user is answered 401.
  Then \<^verbatim>\<open>event.user_id && event.user_id !== req.session.user.id\<close>: a
  \<^verbatim>\<open>user_id\<close> that is NULL or empty is falsy.
\<close>

definition owned_by_other :: "event \<Rightarrow> string \<Rightarrow> bool" where
  "owned_by_other ev uid =
     (case e_user_id ev of None \<Rightarrow> False | Some owner \<Rightarrow> owner \<noteq> [] \<and> owner \<noteq> uid)"

text \<open>
  \<^verbatim>\<open>ORDER BY created_at DESC\<close>: newest first, rows of equal \<^verbatim>\<open>created_at\<close> in
  insertion order. The ascending sort is stable, so it is run on the reversed rows and
  its result reversed.
\<close>

definition order_desc :: "('a \<Rightarrow> timestamp) \<Rightarrow> 'a list \<Rightarrow> 'a list" where
  "order_desc k rows = rev (sort_key k (rev rows))"

definition aggregate :: "db \<Rightarrow> event \<Rightarrow> dashboard_response" where
  "aggregate d ev =
     (let rows = order_desc a_created_at (filter (\<lambda>a. a_event_id a = e_id ev) (attendees d));
          active = filter (\<lambda>a. \<not> a_cancelled a) rows;
          checkedIn = filter a_checked_in active
      in \<lparr>d_event = ev, d_attendees = active, d_total = int (length active),
          d_checked_in = int (length checkedIn),
          d_waitlist_count = count_where (\<lambda>w. w_event_id w = e_id ev) (waitlist d),
          d_checkin_times = concat (map (\<lambda>a. case a_checked_in_at a of None \<Rightarrow> [] | Some t \<Rightarrow> [t])
                                        checkedIn)\<rparr>)"

definition dashboard :: "db \<Rightarrow> string \<Rightarrow> session_user option \<Rightarrow> error + dashboard_response" where
  "dashboard d slug requester =
     (case requester of
        None \<Rightarrow> Inl Unauthorized
      | Some user \<Rightarrow>
          (case find (\<lambda>e. e_slug e = slug) (events d) of
             None \<Rightarrow> Inl NotFound
           | Some ev \<Rightarrow>
               if owned_by_other ev (u_id user) then Inl Forbidden
               else Inr (aggregate d ev)))"

subsection \<open>Sequences of requests\<close>

datatype request =
    Register string string string
  | Cancel string string
  | CheckIn string
  | CheckInQr "json_obj option"
  | JoinWaitlist string string string

fun step :: "db \<Rightarrow> env \<times> request \<Rightarrow> db" where
  "step d (en, Register slug name email) = snd (register en d slug name email)"
| "step d (en, Cancel aid tok) = snd (cancel d aid tok)"
| "step d (en, CheckIn aid) = snd (checkIn en d aid)"
| "step d (en, CheckInQr qrData) = snd (checkInByQrPayload en d qrData)"
| "step d (en, JoinWaitlist slug name email) = snd (joinWaitlist en d slug name email)"

definition run :: "db \<Rightarrow> (env \<times> request) list \<Rightarrow> db" where
  "run d reqs = foldl step d reqs"

fun cancels :: "string \<Rightarrow> env \<times> request \<Rightarrow> bool" where
  "cancels aid (en, Cancel aid' tok) = (aid' = aid)"
| "cancels aid (en, _) = False"

subsection \<open>Stores used as concrete inputs\<close>

text \<open>
  An event of capacity one owned by user \<open>u1\<close>, an event without owner, one attendee of
  the first event in the states she can be in, and two people waiting for it. The
  payloads of these requests are a few dozen bytes, which the QR encoder renders.
\<close>

definition meetup :: event where
  "meetup = \<lparr>e_id = ''e1'', e_title = ''Meetup'', e_slug = ''meetup'', e_capacity = 1,
             e_status = ''published'', e_user_id = Some ''u1''\<rparr>"

definition legacy :: event where
  "legacy = \<lparr>e_id = ''e2'', e_title = ''Legacy'', e_slug = ''legacy'', e_capacity = 5,
             e_status = ''published'', e_user_id = None\<rparr>"

definition ann :: attendee where
  "ann = \<lparr>a_id = ''a1'', a_event_id = ''e1'', a_name = ''Ann'', a_email = ''ann@x'',
          a_qr_code = qr_data ''a1'' ''e1'' ''Ann'' ''ann@x'',
          a_checked_in = False, a_checked_in_at = None, a_cancelled = False,
          a_cancel_token = ''t1'', a_created_at = 10\<rparr>"

definition bob :: waitlist_entry where
  "bob = \<lparr>w_id = ''w1'', w_event_id = ''e1'', w_name = ''Bob'', w_email = ''bob@x'',
          w_notified = False, w_created_at = 30\<rparr>"

definition cy :: waitlist_entry where
  "cy = \<lparr>w_id = ''w2'', w_event_id = ''e1'', w_name = ''Cy'', w_email = ''cy@x'',
         w_notified = False, w_created_at = 40\<rparr>"

definition store_empty :: db where
  "store_empty = \<lparr>events = [meetup, legacy], attendees = [], waitlist = []\<rparr>"

definition store_full :: db where
  "store_full = \<lparr>events = [meetup, legacy], attendees = [ann], waitlist = [bob, cy]\<rparr>"

definition store_cancelled :: db where
  "store_cancelled =
     \<lparr>events = [meetup, legacy], attendees = [ann\<lparr>a_cancelled := True\<rparr>], waitlist = [bob, cy]\<rparr>"

definition store_returning :: db where
  "store_returning =
     \<lparr>events = [meetup, legacy],
      attendees = [ann\<lparr>a_checked_in := True, a_checked_in_at := Some 20, a_cancelled := True\<rparr>],
      waitlist = []\<rparr>"

definition owner_u1 :: session_user where
  "owner_u1 = \<lparr>u_id = ''u1'', u_name = ''Olga'', u_email = ''olga@x''\<rparr>"

definition visitor :: session_user where
  "visitor = \<lparr>u_id = ''u9'', u_name = ''Vic'', u_email = ''vic@x''\<rparr>"

definition env1 :: env where
  "env1 = \<lparr>new_id = ''a1'', new_token = ''t1'', now = 10, qr_fits = (\<lambda>p. True)\<rparr>"

definition env2 :: env where
  "env2 = \<lparr>new_id = ''a2'', new_token = ''t2'', now = 20, qr_fits = (\<lambda>p. True)\<rparr>"

definition env3 :: env where
  "env3 = \<lparr>new_id = ''a3'', new_token = ''t3'', now = 50, qr_fits = (\<lambda>p. True)\<rparr>"

text \<open>
  Ann registers, is checked in at the door, cancels, and registers again with the same
  email.
\<close>

definition ann_returns :: "(env \<times> request) list" where
  "ann_returns =
     [(env1, Register ''meetup'' ''Ann'' ''ann@x''),
      (env2, CheckIn ''a1''),
      (env2, Cancel ''a1'' ''t1''),
      (env3, Register ''meetup'' ''Ann B'' ''ann@x'')]"

lemmas store_defs =
  meetup_def legacy_def ann_def bob_def cy_def store_empty_def store_full_def
  store_cancelled_def store_returning_def owner_u1_def visitor_def
  env1_def env2_def env3_def qr_data_def

subsection \<open>Predicates on stores\<close>

text \<open>
  The first row of the event and email is the attendee \<open>aid\<close>, not cancelled: the row
  the duplicate check of register reads.
\<close>

definition active_row :: "string \<Rightarrow> string \<Rightarrow> string \<Rightarrow> db \<Rightarrow> bool" where
  "active_row eid email aid d \<longleftrightarrow>
     (case find (\<lambda>a. a_event_id a = eid \<and> a_email a = email) (attendees d) of
        None \<Rightarrow> False
      | Some a \<Rightarrow> a_id a = aid \<and> \<not> a_cancelled a)"

text \<open>
  The invariant the data model is to keep, in the spec's words "checked_in_at is set if
  and only if checked_in is true", and the half of it that says a checked-in attendee
  has a check-in time.
\<close>

definition checked_in_consistent :: "attendee \<Rightarrow> bool" where
  "checked_in_consistent a \<longleftrightarrow> (a_checked_in_at a \<noteq> None) = a_checked_in a"

definition checked_in_timed :: "attendee \<Rightarrow> bool" where
  "checked_in_timed a \<longleftrightarrow> (a_checked_in a \<longrightarrow> a_checked_in_at a \<noteq> None)"

section \<open>Properties\<close>

subsection \<open>Facts about the SQL statements\<close>

lemma find_Some_props: "find q rows = Some a \<Longrightarrow> q a \<and> a \<in> set rows"
  by (induction rows) (auto split: if_splits)

lemma find_update_where:
  assumes "\<And>x. q (f x) = q x"
  shows "find q (update_where p f rows) = map_option (\<lambda>x. if p x then f x else x) (find q rows)"
  using assms by (induction rows) (auto simp: update_where_def)

lemma find_append_miss:
  "find q rows = None \<Longrightarrow> find q (rows @ [x]) = (if q x then Some x else None)"
  by (induction rows) (auto split: if_splits)

lemma find_append_hit: "find q rows = Some a \<Longrightarrow> find q (rows @ ys) = Some a"
  by (induction rows) (auto split: if_splits)

lemma find_filter_Cons: "find q rows = Some a \<Longrightarrow> \<exists>rest. filter q rows = a # rest"
  by (induction rows) (auto split: if_splits)

text \<open>With a primary key, an update by key rewrites one row.\<close>

lemma update_where_key:
  assumes "distinct (map k rows)" and "i < length rows"
  shows "update_where (\<lambda>w. k w = k (rows ! i)) f rows = rows[i := f (rows ! i)]"
proof (rule nth_equalityI)
  show "length (update_where (\<lambda>w. k w = k (rows ! i)) f rows) = length (rows[i := f (rows ! i)])"
    by (simp add: update_where_def)
next
  fix j assume "j < length (update_where (\<lambda>w. k w = k (rows ! i)) f rows)"
  then have j: "j < length rows" by (simp add: update_where_def)
  have "k (rows ! j) = k (rows ! i) \<longleftrightarrow> j = i"
    using assms j nth_eq_iff_index_eq [of "map k rows" j i] by auto
  then show "update_where (\<lambda>w. k w = k (rows ! i)) f rows ! j = rows[i := f (rows ! i)] ! j"
    using j assms(2) by (auto simp: update_where_def)
qed

lemma attendee_with_event_first:
  assumes "find (\<lambda>a. a_id a = aid) (attendees d) = Some att"
    and "find (\<lambda>e. e_id e = a_event_id att) (events d) = Some ev"
  shows "\<exists>rest. attendee_with_event d aid = (att, ev) # rest"
proof -
  obtain r1 where r1: "filter (\<lambda>a. a_id a = aid) (attendees d) = att # r1"
    using find_filter_Cons [OF assms(1)] by blast
  obtain r2 where r2: "filter (\<lambda>e. e_id e = a_event_id att) (events d) = ev # r2"
    using find_filter_Cons [OF assms(2)] by blast
  have "filter (\<lambda>e. a_event_id att = e_id e) (events d) = ev # r2"
    using r2 by (simp add: eq_commute)
  then show ?thesis
    by (simp add: attendee_with_event_def r1)
qed

lemma checked_in_row_found:
  assumes "find (\<lambda>a. a_id a = aid) (attendees d) = Some att"
  shows "find (\<lambda>a. a_id a = aid)
           (update_where (\<lambda>a. a_id a = aid) (check_in_row t) (attendees d)) =
         Some (check_in_row t att)"
proof -
  have "\<And>x. a_id (check_in_row t x) = aid \<longleftrightarrow> a_id x = aid"
    by (simp add: check_in_row_def)
  then show ?thesis
    using find_update_where [of "\<lambda>a. a_id a = aid" "check_in_row t"] assms
      find_Some_props [OF assms]
    by simp
qed

text \<open>Counting the rows of a selection when one row is rewritten.\<close>

lemma filter_update_gain:
  "i < length xs \<Longrightarrow> \<not> P (xs ! i) \<Longrightarrow> P y \<Longrightarrow>
     length (filter P (xs[i := y])) = Suc (length (filter P xs))"
proof (induction xs arbitrary: i)
  case Nil
  then show ?case by simp
next
  case (Cons x xs)
  then show ?case by (cases i) auto
qed

lemma filter_update_loss:
  "i < length xs \<Longrightarrow> P (xs ! i) \<Longrightarrow> \<not> P y \<Longrightarrow>
     Suc (length (filter P (xs[i := y]))) = length (filter P xs)"
proof (induction xs arbitrary: i)
  case Nil
  then show ?case by simp
next
  case (Cons x xs)
  then show ?case by (cases i) auto
qed

lemma count_where_pos: "0 < count_where P rows \<longleftrightarrow> (\<exists>x\<in>set rows. P x)"
  by (auto simp: count_where_def filter_empty_conv)

subsection \<open>The waiting list\<close>

lemma sort_key_head:
  assumes "sort_key k xs = w # rest"
  shows "w \<in> set xs \<and> (\<forall>v\<in>set xs. k w \<le> k v)"
proof -
  have s: "set (w # rest) = set xs" using assms [symmetric] by simp
  have "sorted (map k (w # rest))" using assms [symmetric] by simp
  then have "\<forall>v\<in>set (w # rest). k w \<le> k v" by auto
  then show ?thesis using s by auto
qed

lemma next_in_line_None:
  "next_in_line eid rows = None \<longleftrightarrow> (\<forall>w\<in>set rows. \<not> (w_event_id w = eid \<and> \<not> w_notified w))"
proof -
  let ?sel = "filter (\<lambda>w. w_event_id w = eid \<and> \<not> w_notified w) rows"
  have "next_in_line eid rows = None \<longleftrightarrow> sort_key w_created_at ?sel = []"
    by (simp add: next_in_line_def split: list.splits)
  also have "\<dots> \<longleftrightarrow> set (sort_key w_created_at ?sel) = {}" by (simp only: set_empty)
  also have "\<dots> \<longleftrightarrow> set ?sel = {}" by simp
  also have "\<dots> \<longleftrightarrow> (\<forall>w\<in>set rows. \<not> (w_event_id w = eid \<and> \<not> w_notified w))"
    by (auto simp: filter_empty_conv)
  finally show ?thesis .
qed

lemma next_in_line_Some:
  assumes "next_in_line eid rows = Some w"
  shows "w \<in> set rows \<and> w_event_id w = eid \<and> \<not> w_notified w
       \<and> (\<forall>v\<in>set rows. w_event_id v = eid \<and> \<not> w_notified v \<longrightarrow> w_created_at w \<le> w_created_at v)"
proof -
  let ?sel = "filter (\<lambda>w. w_event_id w = eid \<and> \<not> w_notified w) rows"
  obtain rest where "sort_key w_created_at ?sel = w # rest"
    using assms by (auto simp: next_in_line_def split: list.splits)
  from sort_key_head [OF this] show ?thesis by auto
qed

lemma promote_selected:
  assumes "distinct (map w_id rows)"
    and "\<exists>w\<in>set rows. w_event_id w = eid \<and> \<not> w_notified w"
  shows "\<exists>i<length rows. w_event_id (rows ! i) = eid \<and> \<not> w_notified (rows ! i)
          \<and> (\<forall>v\<in>set rows. w_event_id v = eid \<and> \<not> w_notified v
                \<longrightarrow> w_created_at (rows ! i) \<le> w_created_at v)
          \<and> promote eid rows = rows[i := (rows ! i)\<lparr>w_notified := True\<rparr>]"
proof -
  obtain nxt where n: "next_in_line eid rows = Some nxt"
    using assms(2) next_in_line_None [of eid rows] by (cases "next_in_line eid rows") auto
  from next_in_line_Some [OF n] obtain i where i: "i < length rows" "rows ! i = nxt"
    by (auto simp: in_set_conv_nth)
  have "promote eid rows = rows[i := (rows ! i)\<lparr>w_notified := True\<rparr>]"
    using update_where_key [OF assms(1) i(1), of "\<lambda>w. w\<lparr>w_notified := True\<rparr>"] n i(2)
    by (simp add: promote_def)
  then show ?thesis using next_in_line_Some [OF n] i by blast
qed

lemma promote_nothing:
  assumes "\<forall>w\<in>set rows. \<not> (w_event_id w = eid \<and> \<not> w_notified w)"
  shows "promote eid rows = rows"
  using assms next_in_line_None [of eid rows] by (simp add: promote_def)

lemma promote_ids: "map w_id (promote eid rows) = map w_id rows"
  by (simp add: promote_def update_where_def split: option.splits)

lemma promote_keeps_notified:
  assumes "distinct (map w_id rows)" and "j < length rows" and "w_notified (rows ! j)"
  shows "promote eid rows ! j = rows ! j"
proof (cases "\<exists>w\<in>set rows. w_event_id w = eid \<and> \<not> w_notified w")
  case True
  from promote_selected [OF assms(1) True] obtain i where
    i: "i < length rows" "\<not> w_notified (rows ! i)"
       "promote eid rows = rows[i := (rows ! i)\<lparr>w_notified := True\<rparr>]" by blast
  then have "i \<noteq> j" using assms(3) by auto
  then show ?thesis using i(3) by simp
next
  case False
  then show ?thesis using promote_nothing [of rows eid] by simp
qed

text \<open>What one promotion, and then \<open>n\<close> of them, do to the counts of an event.\<close>

lemma promote_counts:
  assumes "distinct (map w_id rows)"
  shows "count_where (\<lambda>w. w_event_id w = eid \<and> w_notified w) (promote eid rows) =
           count_where (\<lambda>w. w_event_id w = eid \<and> w_notified w) rows +
           (if 0 < count_where (\<lambda>w. w_event_id w = eid \<and> \<not> w_notified w) rows then 1 else 0)"
    and "count_where (\<lambda>w. w_event_id w = eid \<and> \<not> w_notified w) (promote eid rows) =
           count_where (\<lambda>w. w_event_id w = eid \<and> \<not> w_notified w) rows -
           (if 0 < count_where (\<lambda>w. w_event_id w = eid \<and> \<not> w_notified w) rows then 1 else 0)"
proof -
  let ?N = "\<lambda>w. w_event_id w = eid \<and> w_notified w"
  let ?U = "\<lambda>w. w_event_id w = eid \<and> \<not> w_notified w"
  have "count_where ?N (promote eid rows) =
          count_where ?N rows + (if 0 < count_where ?U rows then 1 else 0)
      \<and> count_where ?U (promote eid rows) =
          count_where ?U rows - (if 0 < count_where ?U rows then 1 else 0)"
  proof (cases "\<exists>w\<in>set rows. ?U w")
    case True
    from promote_selected [OF assms True] obtain i where
      i: "i < length rows" "w_event_id (rows ! i) = eid" "\<not> w_notified (rows ! i)"
         "promote eid rows = rows[i := (rows ! i)\<lparr>w_notified := True\<rparr>]" by blast
    have g: "length (filter ?N (rows[i := (rows ! i)\<lparr>w_notified := True\<rparr>])) =
             Suc (length (filter ?N rows))"
      by (rule filter_update_gain) (use i in simp_all)
    have l: "Suc (length (filter ?U (rows[i := (rows ! i)\<lparr>w_notified := True\<rparr>]))) =
             length (filter ?U rows)"
      by (rule filter_update_loss) (use i in simp_all)
    have "0 < count_where ?U rows" using True count_where_pos [of ?U rows] by simp
    then show ?thesis using g l i(4) by (simp add: count_where_def)
  next
    case False
    then have "\<not> 0 < count_where ?U rows" using count_where_pos [of ?U rows] by simp
    moreover have "promote eid rows = rows" using False promote_nothing [of rows eid] by simp
    ultimately show ?thesis by simp
  qed
  then show "count_where ?N (promote eid rows) =
          count_where ?N rows + (if 0 < count_where ?U rows then 1 else 0)"
    and "count_where ?U (promote eid rows) =
          count_where ?U rows - (if 0 < count_where ?U rows then 1 else 0)"
    by simp_all
qed

lemma promote_distinct: "distinct (map w_id rows) \<Longrightarrow> distinct (map w_id (promote eid rows))"
  by (simp add: promote_ids)

lemma promote_n_counts:
  assumes "distinct (map w_id rows)"
  shows "count_where (\<lambda>w. w_event_id w = eid \<and> w_notified w) ((promote eid ^^ n) rows) =
           count_where (\<lambda>w. w_event_id w = eid \<and> w_notified w) rows +
           min (int n) (count_where (\<lambda>w. w_event_id w = eid \<and> \<not> w_notified w) rows)"
  using assms
proof (induction n arbitrary: rows)
  case 0
  then show ?case by (simp add: count_where_def)
next
  case (Suc n)
  have "(promote eid ^^ Suc n) rows = (promote eid ^^ n) (promote eid rows)"
    by (simp add: funpow_swap1)
  then show ?case
    using Suc.IH [OF promote_distinct [OF Suc.prems]] promote_counts [OF Suc.prems, of eid]
    by (simp split: if_splits) 
qed

subsection \<open>What a request leaves in place\<close>

text \<open>No request of the ledger writes the events table.\<close>

lemma events_step: "events (step d rq) = events d"
proof (cases rq)
  case (Pair en r)
  show ?thesis
  proof (cases r)
    case (Register slug name email)
    then show ?thesis using Pair
      by (simp add: register_def Let_def split: option.splits)
  next
    case (Cancel aid tok)
    then show ?thesis using Pair by (simp add: cancel_def split: option.splits)
  next
    case (CheckIn aid)
    then show ?thesis using Pair by (simp add: checkIn_def split: option.splits)
  next
    case (CheckInQr q)
    then show ?thesis using Pair
      by (simp add: checkInByQrPayload_def split: option.splits list.splits prod.splits)
  next
    case (JoinWaitlist slug name email)
    then show ?thesis using Pair
      by (simp add: joinWaitlist_def Let_def split: option.splits)
  qed
qed

lemma events_run: "events (run d reqs) = events d"
  unfolding run_def by (induction reqs arbitrary: d) (simp_all add: events_step)

text \<open>
  An attendee's row stays the active row of its event and email under every request but
  a cancel of that attendee.
\<close>

lemma active_row_update:
  assumes "active_row eid email aid d"
    and "\<And>x. a_event_id (f x) = a_event_id x \<and> a_email (f x) = a_email x \<and> a_id (f x) = a_id x"
    and "\<And>x. p x \<Longrightarrow> a_id x = aid \<Longrightarrow> \<not> a_cancelled x \<Longrightarrow> \<not> a_cancelled (f x)"
  shows "active_row eid email aid (d\<lparr>attendees := update_where p f (attendees d)\<rparr>)"
proof -
  have "find (\<lambda>a. a_event_id a = eid \<and> a_email a = email) (update_where p f (attendees d)) =
        map_option (\<lambda>x. if p x then f x else x)
          (find (\<lambda>a. a_event_id a = eid \<and> a_email a = email) (attendees d))"
    by (rule find_update_where) (simp add: assms(2))
  then show ?thesis using assms
    by (auto simp: active_row_def split: option.splits)
qed

lemma active_row_append:
  assumes "active_row eid email aid d"
  shows "active_row eid email aid (d\<lparr>attendees := attendees d @ ys\<rparr>)"
  using assms by (auto simp: active_row_def find_append_hit split: option.splits)

lemma active_row_step:
  assumes "active_row eid email aid d" and "\<not> cancels aid rq"
  shows "active_row eid email aid (step d rq)"
proof (cases rq)
  case (Pair en r)
  show ?thesis
  proof (cases r)
    case (Register slug name email')
    have u: "\<And>i qr. active_row eid email aid
        (d\<lparr>attendees := update_where (\<lambda>a. a_id a = i) (reactivate name qr) (attendees d)\<rparr>)"
      by (rule active_row_update [OF assms(1)]) (simp_all add: reactivate_def)
    show ?thesis using Pair Register assms(1) u active_row_append [OF assms(1)]
      by (simp add: register_def Let_def split: option.splits)
  next
    case (Cancel aid' tok)
    then have ne: "aid' \<noteq> aid" using assms(2) Pair by simp
    have u: "active_row eid email aid
        (d\<lparr>attendees := update_where (\<lambda>a. a_id a = aid') (\<lambda>a. a\<lparr>a_cancelled := True\<rparr>) (attendees d)\<rparr>)"
      by (rule active_row_update [OF assms(1)]) (use ne in simp_all)
    have w: "\<And>d' rows. active_row eid email aid (d'\<lparr>waitlist := rows\<rparr>) = active_row eid email aid d'"
      by (simp add: active_row_def)
    show ?thesis using Pair Cancel assms(1) u
      by (simp add: cancel_def w split: option.splits)
  next
    case (CheckIn aid')
    have u: "\<And>t. active_row eid email aid
        (d\<lparr>attendees := update_where (\<lambda>a. a_id a = aid') (check_in_row t) (attendees d)\<rparr>)"
      by (rule active_row_update [OF assms(1)]) (simp_all add: check_in_row_def)
    show ?thesis using Pair CheckIn assms(1) u
      by (simp add: checkIn_def split: option.splits)
  next
    case (CheckInQr q)
    have u: "\<And>t i. active_row eid email aid
        (d\<lparr>attendees := update_where (\<lambda>a. a_id a = i) (check_in_row t) (attendees d)\<rparr>)"
      by (rule active_row_update [OF assms(1)]) (simp_all add: check_in_row_def)
    show ?thesis using Pair CheckInQr assms(1) u
      by (simp add: checkInByQrPayload_def split: option.splits list.splits prod.splits)
  next
    case (JoinWaitlist slug name email')
    have w: "\<And>d' rows. active_row eid email aid (d'\<lparr>waitlist := rows\<rparr>) = active_row eid email aid d'"
      by (simp add: active_row_def)
    show ?thesis using Pair JoinWaitlist assms(1)
      by (simp add: joinWaitlist_def Let_def w split: option.splits)
  qed
qed

lemma active_row_run:
  assumes "active_row eid email aid d" and "list_all (\<lambda>rq. \<not> cancels aid rq) reqs"
  shows "active_row eid email aid (run d reqs)"
  using assms unfolding run_def
  by (induction reqs arbitrary: d) (simp_all add: active_row_step)

subsection \<open>Fresh registration and capacity\<close>



subsection \<open>Registering again\<close>

text \<open>
  What the reactivating branch of register does, for a request that reaches it and
  whose payload the QR encoder renders: the
  response carries reactivated = true, and the stored row has cancelled and checked_in
  cleared, the new name and the QR payload built from the new name. The capacity is not
  read. The \<^verbatim>\<open>UPDATE\<close> names no other column: \<^verbatim>\<open>checked_in_at\<close> stays.
\<close>

lemma register_reactivates:
  assumes "name \<noteq> []" and "email \<noteq> []"
    and "find (\<lambda>e. e_slug e = slug) (events d) = Some ev"
    and "e_status ev \<noteq> ''cancelled''" and "e_status ev \<noteq> ''draft''"
    and "find (\<lambda>a. a_event_id a = e_id ev \<and> a_email a = email) (attendees d) = Some existing"
    and "a_cancelled existing"
    and "qr_fits en (qr_data (a_id existing) (e_id ev) name email)"
  shows "fst (register en d slug name email) =
           Inr \<lparr>r_id = a_id existing, r_name = name, r_email = email,
                r_qr_code = qr_data (a_id existing) (e_id ev) name email, r_event = ev,
                r_cancel_token = None, r_reactivated = True\<rparr>"
    and "find (\<lambda>a. a_event_id a = e_id ev \<and> a_email a = email)
           (attendees (snd (register en d slug name email))) =
         Some (existing\<lparr>a_cancelled := False, a_name := name,
                 a_qr_code := qr_data (a_id existing) (e_id ev) name email,
                 a_checked_in := False\<rparr>)"
proof -
  let ?qr = "qr_data (a_id existing) (e_id ev) name email"
  have r: "register en d slug name email =
      (Inr \<lparr>r_id = a_id existing, r_name = name, r_email = email, r_qr_code = ?qr, r_event = ev,
            r_cancel_token = None, r_reactivated = True\<rparr>,
       d\<lparr>attendees := update_where (\<lambda>a. a_id a = a_id existing) (reactivate name ?qr) (attendees d)\<rparr>)"
    using assms by (simp add: register_def Let_def)
  show "fst (register en d slug name email) =
           Inr \<lparr>r_id = a_id existing, r_name = name, r_email = email, r_qr_code = ?qr, r_event = ev,
                r_cancel_token = None, r_reactivated = True\<rparr>"
    by (simp add: r)
  have "find (\<lambda>a. a_event_id a = e_id ev \<and> a_email a = email)
          (update_where (\<lambda>a. a_id a = a_id existing) (reactivate name ?qr) (attendees d)) =
        map_option (\<lambda>x. if a_id x = a_id existing then reactivate name ?qr x else x)
          (find (\<lambda>a. a_event_id a = e_id ev \<and> a_email a = email) (attendees d))"
    by (rule find_update_where) (simp add: reactivate_def)
  then show "find (\<lambda>a. a_event_id a = e_id ev \<and> a_email a = email)
           (attendees (snd (register en d slug name email))) =
         Some (existing\<lparr>a_cancelled := False, a_name := name, a_qr_code := ?qr,
                 a_checked_in := False\<rparr>)"
    using assms(6) by (simp add: r reactivate_def)
qed

text \<open>
  Claim C2. Ann was checked in at time 20 and then cancelled. Her new registration is
  answered with reactivated = true, and her row has cancelled and checked_in cleared,
  the new name and a new QR payload; but checked_in_at is still 20, where the claim has
  it reset to unset.
\<close>

theorem reactivation_keeps_checked_in_at:
  "fst (register env3 store_returning ''meetup'' ''Ann B'' ''ann@x'') =
     Inr \<lparr>r_id = ''a1'', r_name = ''Ann B'', r_email = ''ann@x'',
          r_qr_code = qr_data ''a1'' ''e1'' ''Ann B'' ''ann@x'', r_event = meetup,
          r_cancel_token = None, r_reactivated = True\<rparr>
   \<and> attendees (snd (register env3 store_returning ''meetup'' ''Ann B'' ''ann@x'')) =
       [ann\<lparr>a_name := ''Ann B'', a_qr_code := qr_data ''a1'' ''e1'' ''Ann B'' ''ann@x'',
            a_cancelled := False, a_checked_in := False, a_checked_in_at := Some 20\<rparr>]"
  by (simp add: register_def store_returning_def meetup_def legacy_def ann_def env3_def
      qr_data_def update_where_def reactivate_def Let_def)

text \<open>
  Claim C3. The same requests from the empty store: register, check-in, cancel and
  register again reach a state where Ann's row has checked_in = false and
  checked_in_at = 20, so "checked_in_at is set if and only if checked_in is true" fails
  in a reachable state.
\<close>

theorem reachable_state_breaks_invariant:
  "attendees (run store_empty ann_returns) =
     [ann\<lparr>a_name := ''Ann B'', a_qr_code := qr_data ''a1'' ''e1'' ''Ann B'' ''ann@x'',
          a_checked_in := False, a_checked_in_at := Some 20\<rparr>]
   \<and> \<not> list_all checked_in_consistent (attendees (run store_empty ann_returns))"
  by (simp add: run_def ann_returns_def register_def checkIn_def cancel_def store_defs
      update_where_def reactivate_def check_in_row_def new_attendee_def active_count_def
      count_where_def promote_def next_in_line_def checked_in_consistent_def Let_def)

text \<open>
  The half of the invariant that every request keeps: a checked-in attendee has a
  check-in time.
\<close>

lemma checked_in_timed_update:
  assumes "list_all checked_in_timed rows" and "\<And>x. checked_in_timed x \<Longrightarrow> checked_in_timed (f x)"
  shows "list_all checked_in_timed (update_where p f rows)"
  using assms by (induction rows) (auto simp: update_where_def)

lemma checked_in_timed_step:
  assumes "list_all checked_in_timed (attendees d)"
  shows "list_all checked_in_timed (attendees (step d rq))"
proof (cases rq)
  case (Pair en r)
  have u: "\<And>p t. list_all checked_in_timed (update_where p (check_in_row t) (attendees d))"
    by (rule checked_in_timed_update [OF assms]) (simp add: checked_in_timed_def check_in_row_def)
  have v: "\<And>p name qr. list_all checked_in_timed (update_where p (reactivate name qr) (attendees d))"
    by (rule checked_in_timed_update [OF assms]) (simp add: checked_in_timed_def reactivate_def)
  have w: "\<And>p. list_all checked_in_timed
             (update_where p (\<lambda>a. a\<lparr>a_cancelled := True\<rparr>) (attendees d))"
    by (rule checked_in_timed_update [OF assms]) (simp add: checked_in_timed_def)
  show ?thesis
  proof (cases r)
    case (Register slug name email)
    then show ?thesis using Pair assms v
      by (simp add: register_def Let_def new_attendee_def checked_in_timed_def
          split: option.splits)
  next
    case (Cancel aid tok)
    then show ?thesis using Pair assms w by (simp add: cancel_def split: option.splits)
  next
    case (CheckIn aid)
    then show ?thesis using Pair assms u by (simp add: checkIn_def split: option.splits)
  next
    case (CheckInQr q)
    then show ?thesis using Pair assms u
      by (simp add: checkInByQrPayload_def split: option.splits list.splits prod.splits)
  next
    case (JoinWaitlist slug name email)
    then show ?thesis using Pair assms
      by (simp add: joinWaitlist_def Let_def split: option.splits)
  qed
qed

lemma checked_in_timed_run:
  assumes "list_all checked_in_timed (attendees d)"
  shows "list_all checked_in_timed (attendees (run d reqs))"
  using assms unfolding run_def
  by (induction reqs arbitrary: d) (simp_all add: checked_in_timed_step)

subsection \<open>Registering twice\<close>

lemma register_success:
  assumes "register en d slug name email = (Inr r, d1)"
  shows "email \<noteq> [] \<and> find (\<lambda>e. e_slug e = slug) (events d) = Some (r_event r)
       \<and> e_status (r_event r) \<noteq> ''cancelled'' \<and> e_status (r_event r) \<noteq> ''draft''
       \<and> active_row (e_id (r_event r)) email (r_id r) d1"
proof -
  have ne: "name \<noteq> []" "email \<noteq> []"
    using assms by (auto simp: register_def split: if_splits)
  obtain ev where ev: "find (\<lambda>e. e_slug e = slug) (events d) = Some ev"
    using assms ne by (cases "find (\<lambda>e. e_slug e = slug) (events d)") (auto simp: register_def)
  have st: "e_status ev \<noteq> ''cancelled''" "e_status ev \<noteq> ''draft''"
    using assms ne ev by (auto simp: register_def split: if_splits)
  let ?q = "\<lambda>a. a_event_id a = e_id ev \<and> a_email a = email"
  show ?thesis
  proof (cases "find ?q (attendees d)")
    case None
    then have "r_event r = ev \<and> r_id r = new_id en
        \<and> d1 = d\<lparr>attendees := attendees d @ [new_attendee en (e_id ev) name email (qr_data (new_id en) (e_id ev) name email)]\<rparr>"
      using assms ne ev st by (auto simp: register_def Let_def split: if_splits)
    then show ?thesis using ne ev st None
      by (simp add: active_row_def find_append_miss new_attendee_def)
  next
    case (Some existing)
    then have c: "a_cancelled existing" and r: "r_event r = ev" "r_id r = a_id existing"
      and d1: "d1 = d\<lparr>attendees := update_where (\<lambda>a. a_id a = a_id existing)
                 (reactivate name (qr_data (a_id existing) (e_id ev) name email)) (attendees d)\<rparr>"
      using assms ne ev st by (auto simp: register_def Let_def split: if_splits)
    have "find ?q (attendees d1) =
          map_option (\<lambda>x. if a_id x = a_id existing
                          then reactivate name (qr_data (a_id existing) (e_id ev) name email) x else x)
            (find ?q (attendees d))"
      unfolding d1 by (simp add: find_update_where reactivate_def)
    then show ?thesis using ne ev st Some r
      by (simp add: active_row_def reactivate_def)
  qed
qed

text \<open>
  Claim C4. After a register request for an event and email has succeeded, and after
  any requests that follow it other than a cancel of the attendee it answered with, a
  register request for the same event and email (with any name) fails with
  DuplicateRegistration and returns the store as it found it: attendees and waiting list
  are unchanged.
\<close>

theorem second_register_duplicate:
  assumes "register en d slug name email = (Inr r, d1)"
    and "list_all (\<lambda>rq. \<not> cancels (r_id r) rq) reqs"
    and "name2 \<noteq> []"
  shows "register en2 (run d1 reqs) slug name2 email = (Inl DuplicateRegistration, run d1 reqs)"
proof -
  note s = register_success [OF assms(1)]
  have "events d1 = events d"
    using events_step [of d "(en, Register slug name email)"] assms(1) by simp
  then have e: "find (\<lambda>e. e_slug e = slug) (events (run d1 reqs)) = Some (r_event r)"
    using s by (simp add: events_run)
  have "active_row (e_id (r_event r)) email (r_id r) (run d1 reqs)"
    using s assms(2) by (simp add: active_row_run)
  then show ?thesis using e s assms(3)
    by (auto simp: register_def active_row_def split: option.splits)
qed

theorem second_register_duplicate_witness:
  "register env3
     (run (snd (register env1 store_empty ''meetup'' ''Ann'' ''ann@x''))
        [(env2, CheckIn ''a1''), (env2, JoinWaitlist ''meetup'' ''Bob'' ''bob@x'')])
     ''meetup'' ''Ann B'' ''ann@x'' =
   (Inl DuplicateRegistration,
    run (snd (register env1 store_empty ''meetup'' ''Ann'' ''ann@x''))
        [(env2, CheckIn ''a1''), (env2, JoinWaitlist ''meetup'' ''Bob'' ''bob@x'')])"
proof -
  obtain r d1 where r: "register env1 store_empty ''meetup'' ''Ann'' ''ann@x'' = (Inr r, d1)"
    and i: "r_id r = ''a1''"
    by (simp add: register_def store_defs active_count_def count_where_def Let_def)
  have c: "list_all (\<lambda>rq. \<not> cancels (r_id r) rq)
             [(env2, CheckIn ''a1''), (env2, JoinWaitlist ''meetup'' ''Bob'' ''bob@x'')]"
    by simp
  have n: "''Ann B'' \<noteq> []" by simp
  show ?thesis
    using second_register_duplicate [OF r c n, of env3] r by simp
qed

subsection \<open>Check-in\<close>

text \<open>
  Claim C5. For an attendee that exists: when she is already checked in, checkIn answers
  "Already checked in" with the stored row and writes nothing; otherwise it answers
  "Checked in successfully" and stores checked_in = true and checked_in_at = now. After
  any first call the attendee is checked in, and a second call is the no-op: it answers
  with the stored row and leaves the store, so also checked_in_at, as the first call
  left it.
\<close>

theorem checkIn_idempotent:
  assumes "find (\<lambda>a. a_id a = aid) (attendees d) = Some att"
  shows "(a_checked_in att \<longrightarrow>
            checkIn en d aid = (Inr \<lparr>c_message = ''Already checked in'', c_attendee = att\<rparr>, d))
       \<and> (\<not> a_checked_in att \<longrightarrow>
            fst (checkIn en d aid) =
              Inr \<lparr>c_message = ''Checked in successfully'',
                   c_attendee = att\<lparr>a_checked_in := True, a_checked_in_at := Some (now en)\<rparr>\<rparr>
          \<and> find (\<lambda>a. a_id a = aid) (attendees (snd (checkIn en d aid))) =
              Some (att\<lparr>a_checked_in := True, a_checked_in_at := Some (now en)\<rparr>))
       \<and> (\<exists>att1. find (\<lambda>a. a_id a = aid) (attendees (snd (checkIn en d aid))) = Some att1
             \<and> a_checked_in att1
             \<and> checkIn en2 (snd (checkIn en d aid)) aid =
                 (Inr \<lparr>c_message = ''Already checked in'', c_attendee = att1\<rparr>,
                  snd (checkIn en d aid)))"
proof (cases "a_checked_in att")
  case True
  then show ?thesis using assms by (simp add: checkIn_def)
next
  case False
  then show ?thesis using assms checked_in_row_found [OF assms, of "now en"]
    by (simp add: checkIn_def check_in_row_def)
qed

theorem checkIn_idempotent_witness:
  "fst (checkIn env2 store_full ''a1'') =
     Inr \<lparr>c_message = ''Checked in successfully'',
          c_attendee = ann\<lparr>a_checked_in := True, a_checked_in_at := Some 20\<rparr>\<rparr>
   \<and> checkIn env3 (snd (checkIn env2 store_full ''a1'')) ''a1'' =
       (Inr \<lparr>c_message = ''Already checked in'',
             c_attendee = ann\<lparr>a_checked_in := True, a_checked_in_at := Some 20\<rparr>\<rparr>,
        snd (checkIn env2 store_full ''a1''))"
proof -
  have f: "find (\<lambda>a. a_id a = ''a1'') (attendees store_full) = Some ann"
    by (simp add: store_defs)
  have n: "\<not> a_checked_in ann" "now env2 = 20"
    by (simp_all add: store_defs)
  show ?thesis
    using checkIn_idempotent [OF f, of env2 env3] n by auto
qed

text \<open>
  Claim C6. A QR payload whose attendeeId names an attendee (of an event of the store)
  with the cancelled flag set is refused with RsvpCancelled, and the store, so also the
  attendee's checked_in and checked_in_at, is left as it was.
\<close>

theorem qr_checkin_cancelled:
  assumes "map_of parsed ''attendeeId'' = Some aid" and "aid \<noteq> []"
    and "find (\<lambda>a. a_id a = aid) (attendees d) = Some att"
    and "find (\<lambda>e. e_id e = a_event_id att) (events d) = Some ev"
    and "a_cancelled att"
  shows "checkInByQrPayload en d (Some parsed) = (Inl RsvpCancelled, d)"
proof -
  obtain rest where "attendee_with_event d aid = (att, ev) # rest"
    using attendee_with_event_first [OF assms(3,4)] by blast
  then show ?thesis using assms(1,2,5)
    by (simp add: checkInByQrPayload_def)
qed

theorem qr_checkin_cancelled_witness:
  "checkInByQrPayload env2 store_cancelled (Some (qr_data ''a1'' ''e1'' ''Ann'' ''ann@x'')) =
     (Inl RsvpCancelled, store_cancelled)"
proof -
  have p: "map_of (qr_data ''a1'' ''e1'' ''Ann'' ''ann@x'') ''attendeeId'' = Some ''a1''"
    by (simp add: qr_data_def)
  have i: "''a1'' \<noteq> []" by simp
  have f: "find (\<lambda>a. a_id a = ''a1'') (attendees store_cancelled) = Some (ann\<lparr>a_cancelled := True\<rparr>)"
    by (simp add: store_defs)
  have e: "find (\<lambda>e. e_id e = a_event_id (ann\<lparr>a_cancelled := True\<rparr>)) (events store_cancelled) =
             Some meetup"
    by (simp add: store_defs)
  have c: "a_cancelled (ann\<lparr>a_cancelled := True\<rparr>)" by simp
  show ?thesis by (rule qr_checkin_cancelled [OF p i f e c])
qed

text \<open>
  Claim C7. The manual check-in never reads the cancelled flag: for an attendee that is
  cancelled and not checked in, checkIn succeeds and the stored row is checked in (and
  still cancelled).
\<close>

theorem manual_checkin_ignores_cancelled:
  assumes "find (\<lambda>a. a_id a = aid) (attendees d) = Some att"
    and "a_cancelled att" and "\<not> a_checked_in att"
  shows "fst (checkIn en d aid) =
           Inr \<lparr>c_message = ''Checked in successfully'',
                c_attendee = att\<lparr>a_checked_in := True, a_checked_in_at := Some (now en)\<rparr>\<rparr>
       \<and> (\<exists>att1. find (\<lambda>a. a_id a = aid) (attendees (snd (checkIn en d aid))) = Some att1
             \<and> a_checked_in att1 \<and> a_cancelled att1)"
  using assms checked_in_row_found [OF assms(1), of "now en"]
  by (simp add: checkIn_def check_in_row_def)

theorem manual_checkin_ignores_cancelled_witness:
  "fst (checkIn env2 store_cancelled ''a1'') =
     Inr \<lparr>c_message = ''Checked in successfully'',
          c_attendee = ann\<lparr>a_cancelled := True, a_checked_in := True, a_checked_in_at := Some 20\<rparr>\<rparr>
   \<and> (\<exists>att1. find (\<lambda>a. a_id a = ''a1'') (attendees (snd (checkIn env2 store_cancelled ''a1''))) =
               Some att1
         \<and> a_checked_in att1 \<and> a_cancelled att1)"
proof -
  have f: "find (\<lambda>a. a_id a = ''a1'') (attendees store_cancelled) = Some (ann\<lparr>a_cancelled := True\<rparr>)"
    by (simp add: store_defs)
  have c: "a_cancelled (ann\<lparr>a_cancelled := True\<rparr>)" by simp
  have n: "\<not> a_checked_in (ann\<lparr>a_cancelled := True\<rparr>)" "now env2 = 20"
    by (simp_all add: store_defs)
  show ?thesis
    using manual_checkin_ignores_cancelled [OF f c n(1), of env2] n(2) by simp
qed

subsection \<open>Cancellation and the waiting list\<close>

text \<open>
  Claim C8. Take a cancel that succeeds (the attendee exists and the token matches) in a
  store whose waiting-list ids are unique (the primary key), the attendee's event having
  at least one entry with notified = false. Then one entry of that event, not yet
  notified and with the least created_at among the event's entries not yet notified, has
  notified set, and the waiting list is otherwise the same: no entry is removed or
  changed. An entry that was already notified is left as it is, so it is not selected
  again. The attendee table keeps its rows: only cancelled flags are written.
\<close>

theorem cancel_promotes_oldest:
  assumes "find (\<lambda>a. a_id a = aid) (attendees d) = Some att"
    and "a_cancel_token att = tok"
    and "distinct (map w_id (waitlist d))"
    and "\<exists>w\<in>set (waitlist d). w_event_id w = a_event_id att \<and> \<not> w_notified w"
  shows "fst (cancel d aid tok) = Inr ()
       \<and> (\<exists>i<length (waitlist d).
             w_event_id (waitlist d ! i) = a_event_id att \<and> \<not> w_notified (waitlist d ! i)
           \<and> (\<forall>v\<in>set (waitlist d). w_event_id v = a_event_id att \<and> \<not> w_notified v
                 \<longrightarrow> w_created_at (waitlist d ! i) \<le> w_created_at v)
           \<and> waitlist (snd (cancel d aid tok)) =
               (waitlist d)[i := (waitlist d ! i)\<lparr>w_notified := True\<rparr>])
       \<and> (\<forall>j<length (waitlist d). w_notified (waitlist d ! j)
             \<longrightarrow> waitlist (snd (cancel d aid tok)) ! j = waitlist d ! j)
       \<and> attendees (snd (cancel d aid tok)) =
           map (\<lambda>a. if a_id a = aid then a\<lparr>a_cancelled := True\<rparr> else a) (attendees d)"
proof -
  have c: "cancel d aid tok =
      (Inr (), d\<lparr>attendees := update_where (\<lambda>a. a_id a = aid) (\<lambda>a. a\<lparr>a_cancelled := True\<rparr>) (attendees d),
                waitlist := promote (a_event_id att) (waitlist d)\<rparr>)"
    using assms(1,2) by (simp add: cancel_def)
  have w: "waitlist (snd (cancel d aid tok)) = promote (a_event_id att) (waitlist d)"
    by (simp add: c)
  have 1: "fst (cancel d aid tok) = Inr ()" by (simp add: c)
  have 2: "\<exists>i<length (waitlist d).
             w_event_id (waitlist d ! i) = a_event_id att \<and> \<not> w_notified (waitlist d ! i)
           \<and> (\<forall>v\<in>set (waitlist d). w_event_id v = a_event_id att \<and> \<not> w_notified v
                 \<longrightarrow> w_created_at (waitlist d ! i) \<le> w_created_at v)
           \<and> waitlist (snd (cancel d aid tok)) =
               (waitlist d)[i := (waitlist d ! i)\<lparr>w_notified := True\<rparr>]"
    unfolding w using promote_selected [OF assms(3,4)] .
  have 3: "\<forall>j<length (waitlist d). w_notified (waitlist d ! j)
             \<longrightarrow> waitlist (snd (cancel d aid tok)) ! j = waitlist d ! j"
    unfolding w using promote_keeps_notified [OF assms(3)] by blast
  have 4: "attendees (snd (cancel d aid tok)) =
           map (\<lambda>a. if a_id a = aid then a\<lparr>a_cancelled := True\<rparr> else a) (attendees d)"
    by (simp add: c update_where_def)
  show ?thesis using 1 2 3 4 by blast
qed

theorem cancel_promotes_oldest_witness:
  "fst (cancel store_full ''a1'' ''t1'') = Inr ()
   \<and> waitlist (snd (cancel store_full ''a1'' ''t1'')) = [bob\<lparr>w_notified := True\<rparr>, cy]
   \<and> attendees (snd (cancel store_full ''a1'' ''t1'')) = [ann\<lparr>a_cancelled := True\<rparr>]"
proof -
  have f: "find (\<lambda>a. a_id a = ''a1'') (attendees store_full) = Some ann"
    by (simp add: store_defs)
  have t: "a_cancel_token ann = ''t1''" by (simp add: store_defs)
  have k: "distinct (map w_id (waitlist store_full))" by (simp add: store_defs)
  have u: "\<exists>w\<in>set (waitlist store_full). w_event_id w = a_event_id ann \<and> \<not> w_notified w"
    by (simp add: store_defs)
  have wl: "waitlist store_full = [bob, cy]" "attendees store_full = [ann]"
    by (simp_all add: store_defs)
  have o: "\<not> w_created_at cy \<le> w_created_at bob" "a_id ann = ''a1''"
    by (simp_all add: store_defs)
  from cancel_promotes_oldest [OF f t k u] obtain i where
    i: "i < length (waitlist store_full)"
       "\<forall>v\<in>set (waitlist store_full). w_event_id v = a_event_id ann \<and> \<not> w_notified v
            \<longrightarrow> w_created_at (waitlist store_full ! i) \<le> w_created_at v"
       "waitlist (snd (cancel store_full ''a1'' ''t1'')) =
          (waitlist store_full)[i := (waitlist store_full ! i)\<lparr>w_notified := True\<rparr>]"
    and r: "fst (cancel store_full ''a1'' ''t1'') = Inr ()"
       "attendees (snd (cancel store_full ''a1'' ''t1'')) =
          map (\<lambda>a. if a_id a = ''a1'' then a\<lparr>a_cancelled := True\<rparr> else a) (attendees store_full)"
    by blast
  have "i = 0"
  proof (rule ccontr)
    assume "i \<noteq> 0"
    then have "i = 1" using i(1) wl by simp
    then have "w_created_at cy \<le> w_created_at bob"
      using i(2) wl by (simp add: store_defs)
    then show False using o by simp
  qed
  then show ?thesis using i(3) r wl o(2) by simp
qed

text \<open>A cancel of an attendee that is already cancelled only runs the promotion.\<close>

lemma cancel_again:
  assumes "find (\<lambda>a. a_id a = aid) (attendees d) = Some att"
    and "a_cancelled att" and "a_cancel_token att = tok"
    and "distinct (map a_id (attendees d))"
  shows "cancel d aid tok = (Inr (), d\<lparr>waitlist := promote (a_event_id att) (waitlist d)\<rparr>)"
proof -
  have a: "att \<in> set (attendees d)" "a_id att = aid"
    using find_Some_props [OF assms(1)] by simp_all
  have "\<And>x. x \<in> set (attendees d) \<Longrightarrow> a_id x = aid \<Longrightarrow> x = att"
    using assms(4) a by (auto simp: distinct_map dest: inj_onD)
  then have "\<And>x. x \<in> set (attendees d) \<Longrightarrow>
      (if a_id x = aid then x\<lparr>a_cancelled := True\<rparr> else x) = x"
    using assms(2) by auto
  then have "update_where (\<lambda>a. a_id a = aid) (\<lambda>a. a\<lparr>a_cancelled := True\<rparr>) (attendees d) = attendees d"
    unfolding update_where_def by (simp add: map_idI)
  then show ?thesis using assms(1,3) by (simp add: cancel_def)
qed

lemma cancel_again_run:
  assumes "find (\<lambda>a. a_id a = aid) (attendees d) = Some att"
    and "a_cancelled att" and "a_cancel_token att = tok"
    and "distinct (map a_id (attendees d))"
  shows "run d (replicate n (en, Cancel aid tok)) =
           d\<lparr>waitlist := (promote (a_event_id att) ^^ n) (waitlist d)\<rparr>"
  using assms
proof (induction n arbitrary: d)
  case 0
  then show ?case by (simp add: run_def)
next
  case (Suc n)
  let ?d = "d\<lparr>waitlist := promote (a_event_id att) (waitlist d)\<rparr>"
  have "run d (replicate (Suc n) (en, Cancel aid tok)) = run ?d (replicate n (en, Cancel aid tok))"
    using cancel_again [OF Suc.prems] by (simp add: run_def)
  also have "\<dots> = ?d\<lparr>waitlist := (promote (a_event_id att) ^^ n) (waitlist ?d)\<rparr>"
    by (rule Suc.IH) (use Suc.prems in simp_all)
  also have "\<dots> = d\<lparr>waitlist := (promote (a_event_id att) ^^ Suc n) (waitlist d)\<rparr>"
    by (simp add: funpow_swap1)
  finally show ?case .
qed

text \<open>
  Claim C10. Cancel has no guard against repetition. For an attendee whose cancelled
  flag is already set (ids being unique in both tables), a cancel with the matching
  token succeeds, leaves the attendee table as it is and runs the promotion again; it
  still succeeds after \<open>n\<close> such calls, and the \<open>n\<close> calls have raised the number of
  notified entries of the event by \<open>n\<close>, or by the number of entries that were not
  notified when that is smaller, while the attendee table, and so the number of active
  attendees, is what it was.
\<close>

theorem cancel_repeats:
  assumes "find (\<lambda>a. a_id a = aid) (attendees d) = Some att"
    and "a_cancelled att" and "a_cancel_token att = tok"
    and "distinct (map a_id (attendees d))"
    and "distinct (map w_id (waitlist d))"
  shows "cancel d aid tok = (Inr (), d\<lparr>waitlist := promote (a_event_id att) (waitlist d)\<rparr>)
       \<and> fst (cancel (run d (replicate n (en, Cancel aid tok))) aid tok) = Inr ()
       \<and> attendees (run d (replicate n (en, Cancel aid tok))) = attendees d
       \<and> count_where (\<lambda>w. w_event_id w = a_event_id att \<and> w_notified w)
           (waitlist (run d (replicate n (en, Cancel aid tok)))) =
         count_where (\<lambda>w. w_event_id w = a_event_id att \<and> w_notified w) (waitlist d) +
         min (int n)
           (count_where (\<lambda>w. w_event_id w = a_event_id att \<and> \<not> w_notified w) (waitlist d))"
proof -
  let ?dn = "run d (replicate n (en, Cancel aid tok))"
  have r: "?dn = d\<lparr>waitlist := (promote (a_event_id att) ^^ n) (waitlist d)\<rparr>"
    by (rule cancel_again_run [OF assms(1-4)])
  have 1: "cancel d aid tok = (Inr (), d\<lparr>waitlist := promote (a_event_id att) (waitlist d)\<rparr>)"
    by (rule cancel_again [OF assms(1-4)])
  have "cancel ?dn aid tok = (Inr (), ?dn\<lparr>waitlist := promote (a_event_id att) (waitlist ?dn)\<rparr>)"
    by (rule cancel_again) (use assms r in simp_all)
  then have 2: "fst (cancel ?dn aid tok) = Inr ()" by simp
  have 3: "attendees ?dn = attendees d" by (simp add: r)
  have 4: "count_where (\<lambda>w. w_event_id w = a_event_id att \<and> w_notified w) (waitlist ?dn) =
         count_where (\<lambda>w. w_event_id w = a_event_id att \<and> w_notified w) (waitlist d) +
         min (int n)
           (count_where (\<lambda>w. w_event_id w = a_event_id att \<and> \<not> w_notified w) (waitlist d))"
    using promote_n_counts [OF assms(5), of "a_event_id att" n] by (simp add: r)
  show ?thesis using 1 2 3 4 by blast
qed

theorem cancel_repeats_witness:
  "cancel store_cancelled ''a1'' ''t1'' =
     (Inr (), store_cancelled\<lparr>waitlist := [bob\<lparr>w_notified := True\<rparr>, cy]\<rparr>)
   \<and> count_where (\<lambda>w. w_event_id w = ''e1'' \<and> w_notified w)
       (waitlist (run store_cancelled (replicate 2 (env2, Cancel ''a1'' ''t1'')))) = 2
   \<and> attendees (run store_cancelled (replicate 2 (env2, Cancel ''a1'' ''t1''))) =
       [ann\<lparr>a_cancelled := True\<rparr>]"
proof -
  have f: "find (\<lambda>a. a_id a = ''a1'') (attendees store_cancelled) = Some (ann\<lparr>a_cancelled := True\<rparr>)"
    by (simp add: store_defs)
  have c: "a_cancelled (ann\<lparr>a_cancelled := True\<rparr>)" by simp
  have t: "a_cancel_token (ann\<lparr>a_cancelled := True\<rparr>) = ''t1''" by (simp add: store_defs)
  have k: "distinct (map a_id (attendees store_cancelled))"
          "distinct (map w_id (waitlist store_cancelled))"
    by (simp_all add: store_defs)
  have e: "a_event_id (ann\<lparr>a_cancelled := True\<rparr>) = ''e1''" by (simp add: store_defs)
  have p: "promote ''e1'' (waitlist store_cancelled) = [bob\<lparr>w_notified := True\<rparr>, cy]"
    by (simp add: store_defs promote_def next_in_line_def update_where_def)
  have n: "count_where (\<lambda>w. w_event_id w = ''e1'' \<and> w_notified w) (waitlist store_cancelled) = 0"
          "count_where (\<lambda>w. w_event_id w = ''e1'' \<and> \<not> w_notified w) (waitlist store_cancelled) = 2"
          "attendees store_cancelled = [ann\<lparr>a_cancelled := True\<rparr>]"
    by (simp_all add: store_defs count_where_def)
  show ?thesis
    using cancel_repeats [OF f c t k, of 2 env2] e p n by simp
qed

subsection \<open>The dashboard\<close>

text \<open>
  Claim C9, as stated, lets anyone who knows the slug read the dashboard of an event
  without owner. The route runs \<^verbatim>\<open>requireAuth\<close> first: a request with no logged-in
  user is refused with 401, also for an event without owner.
\<close>

theorem dashboard_anonymous_refused:
  "e_user_id legacy = None
   \<and> dashboard store_empty ''legacy'' None = Inl Unauthorized
   \<and> dashboard store_empty ''legacy'' None \<noteq> Inr (aggregate store_empty legacy)"
  by (simp add: dashboard_def store_defs)

text \<open>
  Claim C9, amended. For an event found by its slug (owner ids are never empty): a
  request with no logged-in user fails with Unauthorized; a request of a logged-in user
  fails with Forbidden exactly when the event has an owner other than that user, and
  returns the aggregation when the event has no owner or the user is its owner.
\<close>

theorem dashboard_authorization:
  assumes "find (\<lambda>e. e_slug e = slug) (events d) = Some ev"
    and "e_user_id ev \<noteq> Some []"
  shows "dashboard d slug None = Inl Unauthorized
       \<and> (dashboard d slug (Some user) = Inl Forbidden
            \<longleftrightarrow> (\<exists>owner. e_user_id ev = Some owner \<and> owner \<noteq> u_id user))
       \<and> (e_user_id ev = None \<or> e_user_id ev = Some (u_id user)
            \<longrightarrow> dashboard d slug (Some user) = Inr (aggregate d ev))"
  using assms
  by (auto simp: dashboard_def owned_by_other_def split: option.splits)

theorem dashboard_authorization_witness:
  "dashboard store_full ''legacy'' None = Inl Unauthorized
   \<and> dashboard store_full ''legacy'' (Some visitor) = Inr (aggregate store_full legacy)
   \<and> dashboard store_full ''meetup'' (Some visitor) = Inl Forbidden
   \<and> dashboard store_full ''meetup'' (Some owner_u1) = Inr (aggregate store_full meetup)"
proof -
  have e: "find (\<lambda>e. e_slug e = ''legacy'') (events store_full) = Some legacy"
          "find (\<lambda>e. e_slug e = ''meetup'') (events store_full) = Some meetup"
    by (simp_all add: store_defs)
  have o: "e_user_id legacy \<noteq> Some []" "e_user_id meetup \<noteq> Some []"
    by (simp_all add: store_defs)
  have u: "e_user_id legacy = None" "e_user_id meetup = Some ''u1''"
          "u_id visitor = ''u9''" "u_id owner_u1 = ''u1''"
    by (simp_all add: store_defs visitor_def owner_u1_def)
  show ?thesis
    using dashboard_authorization [OF e(1) o(1), of visitor]
          dashboard_authorization [OF e(2) o(2), of visitor]
          dashboard_authorization [OF e(2) o(2), of owner_u1] u
    by simp
qed

end
